theory Spec2Isabelle
  imports Main "HOL-Library.AList" "HOL-Library.Word"
begin

section \<open>The notification service of \<^verbatim>\<open>src/service/notifications.ts\<close>\<close>

text \<open>
  A shallow embedding of the class \<^verbatim>\<open>NotificationsService\<close>. Every method is a function
  from the state of the service to its next state. The state holds the fields of the class
  (\<^verbatim>\<open>_notifications\<close>, \<^verbatim>\<open>_dnd\<close>, \<^verbatim>\<open>_idCount\<close>, \<^verbatim>\<open>_timeout\<close>) and the part of the world the
  methods act on: the content of the cache file and the list of everything the service has
  emitted, signalled, scheduled or written, in the order it happened.

  Conventions.
  \<^item> A JavaScript number that holds an id, a counter or a delay is a \<open>nat\<close>: ids come from
    the counter, which starts at 0 and is only incremented, or from the unsigned
    \<^verbatim>\<open>replacesId\<close> of a caller. The loss of precision of a double beyond \<open>2^53\<close> is not
    modelled.
  \<^item> A value that can be \<^verbatim>\<open>undefined\<close> or \<^verbatim>\<open>null\<close> at run time is an \<open>option\<close>, whatever
    the interface declares: \<^verbatim>\<open>label\<close> of an action and \<^verbatim>\<open>urgency\<close> of a notification are
    declared \<^verbatim>\<open>string\<close>, and the code can store \<^verbatim>\<open>undefined\<close> in both.
  \<^item> The \<^verbatim>\<open>Map\<close> of live notifications is an association list in insertion order, as a
    JavaScript \<^verbatim>\<open>Map\<close> iterates: \<^verbatim>\<open>set\<close> is \<^const>\<open>AList.update\<close> (an existing key keeps its
    place, a new key goes last), \<^verbatim>\<open>get\<close> is \<^const>\<open>map_of\<close>, \<^verbatim>\<open>delete\<close> is \<^const>\<open>AList.delete\<close>.
  \<^item> The field \<^verbatim>\<open>_dbus\<close> is declared \<^verbatim>\<open>_dbus!: Gio.DBusExportedObject\<close> and has no
    initialiser: it is \<^verbatim>\<open>undefined\<close> until the callback that \<^verbatim>\<open>_register\<close> hands to
    \<^verbatim>\<open>Gio.bus_own_name\<close> has run. The state records whether it is assigned (\<open>dbus\<close>), and
    \<open>bus_acquired\<close> is that callback. A method that reaches \<^verbatim>\<open>this._dbus.emit_signal\<close>
    while the field is \<^verbatim>\<open>undefined\<close> raises \<^verbatim>\<open>TypeError\<close>: its result is \<open>Inl TypeError\<close>,
    and the state of the service is then the one the call was given, since both methods
    that use \<^verbatim>\<open>_dbus\<close> dereference it before they change anything.
  \<^item> The property \<^verbatim>\<open>id\<close> is \<open>id_a\<close> in an action and \<open>id_n\<close> in a notification, and
    \<^verbatim>\<open>image\<close> is \<open>image_n\<close>: \<open>id\<close> and \<open>image\<close> are constants of HOL.

  Embedded: the constructor with \<^verbatim>\<open>_readFromFile\<close> and \<^verbatim>\<open>_register\<close>, \<^verbatim>\<open>Notify\<close> with
  \<^verbatim>\<open>_parseImage\<close> and \<^verbatim>\<open>_isFile\<close>, \<^verbatim>\<open>DismissNotification\<close>, \<^verbatim>\<open>CloseNotification\<close>,
  \<^verbatim>\<open>InvokeAction\<close> and \<^verbatim>\<open>_cache\<close>.
\<close>

subsection \<open>Data\<close>

text \<open>\<^verbatim>\<open>interface action { id: string; label: string }\<close>\<close>

record action =
  id_a :: string
  label :: "string option"

text \<open>The unpacked \<^verbatim>\<open>image-data\<close> hint, a \<^verbatim>\<open>(iiibiiay)\<close> structure.\<close>

record image_data =
  width :: int
  height :: int
  rowstride :: int
  has_alpha :: bool
  bits_per_sample :: int
  channels :: int
  pixels :: "8 word list"

text \<open>\<^verbatim>\<open>interface Hints\<close>: each hint is optional; \<^verbatim>\<open>urgency\<close> is a byte.\<close>

record Hints =
  hint_image_data :: "image_data option"
  hint_desktop_entry :: "string option"
  hint_urgency :: "8 word option"

text \<open>\<^verbatim>\<open>interface Notification\<close>\<close>

record notification =
  id_n :: nat
  appName :: string
  appEntry :: "string option"
  appIcon :: string
  summary :: string
  body :: string
  actions :: "action list"
  urgency :: "string option"
  time :: int
  image_n :: "string option"
  popup :: bool

text \<open>
  An element of the array in the cache file: the object
  \<^verbatim>\<open>{ ...notification, action: [], popup: false }\<close> that \<^verbatim>\<open>_cache\<close> builds has every
  property of the notification and one more, \<^verbatim>\<open>action\<close>.
\<close>

record cached = notification +
  action :: "action list"

text \<open>
  What the service does to the world, in order: the events of \<^verbatim>\<open>Service.emit\<close>, the D-Bus
  signals of \<^verbatim>\<open>_dbus.emit_signal\<close>, the timers of \<^verbatim>\<open>timeout\<close>, \<^verbatim>\<open>ensureDirectory\<close>,
  \<^verbatim>\<open>writeFile\<close> of the cache, the PNG that \<^verbatim>\<open>_parseImage\<close> saves, \<^verbatim>\<open>Gio.bus_own_name\<close>
  and the export of the object on the bus.
\<close>

datatype effect =
    Emit_changed
  | Emit_notified nat
  | Emit_dismissed nat
  | Emit_closed nat
  | Signal_NotificationClosed nat nat
  | Signal_ActionInvoked nat string
  | Set_timeout nat nat
  | Ensure_directory
  | Write_cache "cached list"
  | Save_png string image_data
  | Bus_own_name
  | Dbus_export

text \<open>The exception of a call on \<^verbatim>\<open>undefined\<close>.\<close>

datatype error = TypeError

text \<open>
  The state. \<open>cache_file\<close> is the parsed content of \<^verbatim>\<open>notifications.json\<close>, \<open>None\<close> when
  \<^verbatim>\<open>readFile\<close> returns nothing. \<^verbatim>\<open>JSON.stringify\<close> followed by \<^verbatim>\<open>JSON.parse\<close> gives back the
  array of objects it was given, less the properties whose value is \<^verbatim>\<open>undefined\<close>, which
  read as \<^verbatim>\<open>undefined\<close> again: the file is modelled by the array itself. A file that is not
  the JSON of an array of such objects is outside the model (\<^verbatim>\<open>JSON.parse\<close> throws on it, or
  the cast \<^verbatim>\<open>as Notification[]\<close> is wrong).
\<close>

record service =
  notifications :: "(nat \<times> notification) list"
  dnd :: bool
  idCount :: nat
  timeout_ms :: nat
  dbus :: bool
  cache_file :: "cached list option"
  effects :: "effect list"

subsection \<open>Helpers of the language\<close>

text \<open>\<^verbatim>\<open>xs[i]\<close> on a JavaScript array: \<^verbatim>\<open>undefined\<close> out of range.\<close>

definition at :: "'a list \<Rightarrow> nat \<Rightarrow> 'a option" where
  "at xs i = (if i < length xs then Some (xs ! i) else None)"

text \<open>The decimal digits of a number, as a template literal prints it.\<close>

fun string_of_nat :: "nat \<Rightarrow> string" where
  "string_of_nat n =
     (if n < 10 then [char_of (48 + n)]
      else string_of_nat (n div 10) @ [char_of (48 + n mod 10)])"

declare string_of_nat.simps [simp del]

text \<open>A character that the class \<^verbatim>\<open>[^a-zA-Z0-9]\<close> does not match.\<close>

definition is_alnum :: "char \<Rightarrow> bool" where
  "is_alnum c =
     (let k = (of_char c :: nat)
      in (97 \<le> k \<and> k \<le> 122) \<or> (65 \<le> k \<and> k \<le> 90) \<or> (48 \<le> k \<and> k \<le> 57))"

subsection \<open>The methods\<close>

text \<open>\<^verbatim>\<open>const _URGENCY = ['low', 'normal', 'critical']\<close>\<close>

definition URGENCY :: "string list" where
  "URGENCY = [''low'', ''normal'', ''critical'']"

text \<open>
  \<^verbatim>\<open>_URGENCY[hints['urgency']?.unpack() || 1]\<close>: an absent hint gives \<^verbatim>\<open>undefined\<close>, and
  \<^verbatim>\<open>||\<close> replaces every falsy value, \<^verbatim>\<open>undefined\<close> and the number 0 alike, by 1.
\<close>

definition urgency_index :: "8 word option \<Rightarrow> nat" where
  "urgency_index h =
     (case h of
        None \<Rightarrow> 1
      | Some b \<Rightarrow> if unat b = 0 then 1 else unat b)"

definition decode_urgency :: "Hints \<Rightarrow> string option" where
  "decode_urgency hints = at URGENCY (urgency_index (hint_urgency hints))"

text \<open>
  The loop of \<^verbatim>\<open>Notify\<close> over \<^verbatim>\<open>acts\<close>, two elements at a time. \<^verbatim>\<open>acts[i + 1]\<close> is
  \<^verbatim>\<open>undefined\<close> at the last element of a list of odd length, and \<^verbatim>\<open>undefined !== ''\<close> holds.
\<close>

function Notify_loop :: "string list \<Rightarrow> nat \<Rightarrow> action list \<Rightarrow> action list" where
  "Notify_loop acts i acc =
     (if i < length acts
      then Notify_loop acts (i + 2)
             (if at acts (i + 1) \<noteq> Some ''''
              then acc @ [\<lparr>id_a = acts ! i, label = at acts (i + 1)\<rparr>]
              else acc)
      else acc)"
  by pat_completeness auto
termination
  by (relation "measure (\<lambda>(acts, i, acc). length acts - i)") auto

declare Notify_loop.simps [simp del]

text \<open>\<^verbatim>\<open>_isFile(path)\<close>, given what \<^verbatim>\<open>GLib.file_test\<close> answers.\<close>

definition isFile :: "(string \<Rightarrow> bool) \<Rightarrow> string \<Rightarrow> string option" where
  "isFile file_exists path = (if file_exists path then Some path else None)"

text \<open>
  \<^verbatim>\<open>_parseImage(name, image_data)\<close>: the file name it returns and what it does. The pixel
  buffer and its PNG encoding belong to GdkPixbuf and are taken to succeed.
\<close>

definition parseImage :: "string \<Rightarrow> image_data option \<Rightarrow> string option \<times> effect list" where
  "parseImage name img =
     (case img of
        None \<Rightarrow> (None, [])
      | Some data \<Rightarrow>
          (let fileName = filter is_alnum name
           in (Some fileName, [Ensure_directory, Save_png fileName data])))"

text \<open>
  \<^verbatim>\<open>this._parseImage(...) || this._isFile(appIcon)\<close>: the empty string is falsy too.
\<close>

definition image_or_icon :: "string option \<Rightarrow> string option \<Rightarrow> string option" where
  "image_or_icon parsed icon =
     (case parsed of
        None \<Rightarrow> icon
      | Some f \<Rightarrow> if f = [] then icon else Some f)"

text \<open>\<^verbatim>\<open>_cache()\<close>: one object per live notification, in the order of the \<^verbatim>\<open>Map\<close>.\<close>

definition cache_entry :: "notification \<Rightarrow> cached" where
  "cache_entry n =
     \<lparr>id_n = id_n n, appName = appName n, appEntry = appEntry n, appIcon = appIcon n,
      summary = summary n, body = body n, actions = actions n, urgency = urgency n,
      time = time n, image_n = image_n n, popup = False, action = []\<rparr>"

definition cache :: "service \<Rightarrow> service" where
  "cache s =
     (let ns = map (\<lambda>(k, n). cache_entry n) (notifications s)
      in s\<lparr>cache_file := Some ns, effects := effects s @ [Ensure_directory, Write_cache ns]\<rparr>)"

text \<open>
  The object literal that \<^verbatim>\<open>Notify\<close> stores, for the id \<open>i\<close> it has chosen and the
  do-not-disturb flag \<open>d\<close>. \<open>now\<close> is what \<^verbatim>\<open>GLib.DateTime.new_now_local().to_unix()\<close>
  returns and \<open>file_exists\<close> what \<^verbatim>\<open>GLib.file_test\<close> answers.
\<close>

definition Notify_object ::
  "int \<Rightarrow> (string \<Rightarrow> bool) \<Rightarrow> string \<Rightarrow> nat \<Rightarrow> string \<Rightarrow> string \<Rightarrow> string \<Rightarrow> string list \<Rightarrow> Hints
     \<Rightarrow> bool \<Rightarrow> notification" where
  "Notify_object now file_exists app i icon summ bod acts hints d =
     \<lparr>id_n = i, appName = app, appEntry = hint_desktop_entry hints, appIcon = icon,
      summary = summ, body = bod, actions = Notify_loop acts 0 [],
      urgency = decode_urgency hints, time = now,
      image_n = image_or_icon (fst (parseImage (summ @ string_of_nat i) (hint_image_data hints)))
                  (isFile file_exists icon),
      popup = (\<not> d)\<rparr>"

text \<open>
  \<^verbatim>\<open>Notify\<close>. \<^verbatim>\<open>replacesId || this._idCount++\<close> reads and increments the counter only when
  \<^verbatim>\<open>replacesId\<close> is 0. Then, in the order of the source: the record is stored, with the
  effects of \<^verbatim>\<open>_parseImage\<close>; the timer is set; the cache is written; the events are emitted.
\<close>

definition Notify ::
  "int \<Rightarrow> (string \<Rightarrow> bool) \<Rightarrow> string \<Rightarrow> nat \<Rightarrow> string \<Rightarrow> string \<Rightarrow> string \<Rightarrow> string list \<Rightarrow> Hints
     \<Rightarrow> service \<Rightarrow> nat \<times> service" where
  "Notify now file_exists app replacesId icon summ bod acts hints s =
     (let i = (if replacesId \<noteq> 0 then replacesId else idCount s);
          s1 = (if replacesId \<noteq> 0 then s else s\<lparr>idCount := idCount s + 1\<rparr>);
          n = Notify_object now file_exists app i icon summ bod acts hints (dnd s1);
          s2 = s1\<lparr>notifications := AList.update i n (notifications s1),
                  effects := effects s1
                    @ snd (parseImage (summ @ string_of_nat i) (hint_image_data hints))
                    @ [Set_timeout (timeout_ms s1) i]\<rparr>;
          s3 = cache s2
      in (i, s3\<lparr>effects := effects s3 @ [Emit_notified i, Emit_changed]\<rparr>))"

text \<open>\<^verbatim>\<open>DismissNotification(id)\<close>; it is also what an expired timer calls.\<close>

definition DismissNotification :: "nat \<Rightarrow> service \<Rightarrow> service" where
  "DismissNotification i s =
     (case map_of (notifications s) i of
        None \<Rightarrow> s
      | Some n \<Rightarrow>
          s\<lparr>notifications := AList.update i (n\<lparr>popup := False\<rparr>) (notifications s),
            effects := effects s @ [Emit_dismissed i, Emit_changed]\<rparr>)"

text \<open>
  \<^verbatim>\<open>CloseNotification(id)\<close>. After the guard the first statement is
  \<^verbatim>\<open>this._dbus.emit_signal(...)\<close>: while \<^verbatim>\<open>_dbus\<close> is \<^verbatim>\<open>undefined\<close> it raises, before the
  record is deleted.
\<close>

definition CloseNotification :: "nat \<Rightarrow> service \<Rightarrow> error + service" where
  "CloseNotification i s =
     (if map_of (notifications s) i = None then Inr s
      else if \<not> dbus s then Inl TypeError
      else Inr (cache
             (s\<lparr>notifications := AList.delete i (notifications s),
                effects := effects s @ [Signal_NotificationClosed i 3, Emit_closed i, Emit_changed]\<rparr>)))"

text \<open>
  \<^verbatim>\<open>InvokeAction(id, actionId)\<close>. Here too the first statement after the guard calls
  \<^verbatim>\<open>this._dbus.emit_signal(...)\<close>; an exception of \<^verbatim>\<open>CloseNotification\<close> is not caught.
\<close>

definition InvokeAction :: "nat \<Rightarrow> string \<Rightarrow> service \<Rightarrow> error + service" where
  "InvokeAction i actionId s =
     (if map_of (notifications s) i = None then Inr s
      else if \<not> dbus s then Inl TypeError
      else (case CloseNotification i (s\<lparr>effects := effects s @ [Signal_ActionInvoked i actionId]\<rparr>) of
              Inl e \<Rightarrow> Inl e
            | Inr s1 \<Rightarrow> Inr (cache s1)))"

text \<open>
  \<^verbatim>\<open>_readFromFile()\<close>. The body of its \<^verbatim>\<open>forEach\<close> first; the object read from the file is
  stored as it is, and the model keeps the properties of \<^verbatim>\<open>Notification\<close> of it.
\<close>

definition readFromFile_each :: "cached \<Rightarrow> service \<Rightarrow> service" where
  "readFromFile_each n s =
     (let s1 = (if id_n n > idCount s then s\<lparr>idCount := id_n n + 1\<rparr> else s)
      in s1\<lparr>notifications := AList.update (id_n n) (notification.truncate n) (notifications s1)\<rparr>)"

definition readFromFile :: "service \<Rightarrow> service" where
  "readFromFile s =
     (case cache_file s of
        None \<Rightarrow> s
      | Some ns \<Rightarrow>
          (let s1 = fold readFromFile_each ns s
           in s1\<lparr>effects := effects s1 @ [Emit_changed]\<rparr>))"

text \<open>
  \<^verbatim>\<open>_register()\<close> asks for the bus name and returns; \<^verbatim>\<open>_dbus\<close> is not assigned by it.
\<close>

definition register :: "service \<Rightarrow> service" where
  "register s = s\<lparr>effects := effects s @ [Bus_own_name]\<rparr>"

text \<open>
  The callback that \<^verbatim>\<open>_register\<close> gives for the acquired bus, run later by the main loop:
  \<^verbatim>\<open>this._dbus = Gio.DBusExportedObject.wrapJSObject(...)\<close>, then \<^verbatim>\<open>this._dbus.export(...)\<close>.
\<close>

definition bus_acquired :: "service \<Rightarrow> service" where
  "bus_acquired s = s\<lparr>dbus := True, effects := effects s @ [Dbus_export]\<rparr>"

text \<open>
  The field initialisers and the constructor. \<open>cfg\<close> is
  \<^verbatim>\<open>getConfig()?.notificationPopupTimeout\<close> and \<open>file\<close> the cache file at start.
\<close>

definition constructor :: "nat option \<Rightarrow> cached list option \<Rightarrow> service" where
  "constructor cfg file =
     register
       (readFromFile
          \<lparr>notifications = [], dnd = False, idCount = 0,
           timeout_ms = (case cfg of None \<Rightarrow> 3000 | Some t \<Rightarrow> if t = 0 then 3000 else t),
           dbus = False, cache_file = file, effects = []\<rparr>)"

text \<open>A run of \<^verbatim>\<open>Notify\<close> calls, one after the other, and the ids they return.\<close>

record notify_call =
  call_now :: int
  call_file_exists :: "string \<Rightarrow> bool"
  call_appName :: string
  call_replacesId :: nat
  call_appIcon :: string
  call_summary :: string
  call_body :: string
  call_acts :: "string list"
  call_hints :: Hints

definition Notify_call :: "notify_call \<Rightarrow> service \<Rightarrow> nat \<times> service" where
  "Notify_call c s =
     Notify (call_now c) (call_file_exists c) (call_appName c) (call_replacesId c)
       (call_appIcon c) (call_summary c) (call_body c) (call_acts c) (call_hints c) s"

fun Notify_run :: "notify_call list \<Rightarrow> service \<Rightarrow> nat list \<times> service" where
  "Notify_run [] s = ([], s)"
| "Notify_run (c # cs) s =
     (let (i, s1) = Notify_call c s; (is, s2) = Notify_run cs s1 in (i # is, s2))"

subsection \<open>The words of the specification\<close>

text \<open>
  The specification builds the actions "by pairing consecutive elements of the inbound flat
  list, dropping pairs whose label is empty", and says that "an odd trailing unmatched id is
  silently dropped". \<open>pairs\<close> and \<open>spec_actions\<close> follow these words, to be compared
  with the loop of the source.
\<close>

fun pairs :: "'a list \<Rightarrow> ('a \<times> 'a) list" where
  "pairs [] = []"
| "pairs [a] = []"
| "pairs (a # b # r) = (a, b) # pairs r"

definition spec_actions :: "string list \<Rightarrow> action list" where
  "spec_actions acts =
     map (\<lambda>(a, l). \<lparr>id_a = a, label = Some l\<rparr>) (filter (\<lambda>(a, l). l \<noteq> '''') (pairs acts))"

subsection \<open>Inputs of the examples\<close>

definition no_hints :: Hints where
  "no_hints = \<lparr>hint_image_data = None, hint_desktop_entry = None, hint_urgency = None\<rparr>"

text \<open>A call of \<^verbatim>\<open>Notify\<close> that asks for a new id, with one action and no hint.\<close>

definition example_call :: notify_call where
  "example_call =
     \<lparr>call_now = 5, call_file_exists = (\<lambda>p. False), call_appName = ''App'',
      call_replacesId = 0, call_appIcon = ''icon'', call_summary = ''Hi'',
      call_body = ''text'', call_acts = [''a1'', ''Open''], call_hints = no_hints\<rparr>"

text \<open>
  A service that was started without a cache file and has received one call, which asked
  for the id 7: one live notification, under 7, shown as a popup.
\<close>

definition example_service :: service where
  "example_service =
     snd (Notify_call (example_call\<lparr>call_replacesId := 7\<rparr>) (constructor None None))"

text \<open>
  A service that has lived and is started again: on a service started without a cache
  file, whose bus callback has run, three calls ask for new ids and the first notification
  is closed; a new service is constructed from the cache file that the first one wrote
  last. (The closing call returns; the other branch is there for the type only.)
\<close>

definition example_restart :: service where
  "example_restart =
     (case CloseNotification 0
             (snd (Notify_run [example_call, example_call, example_call]
                     (bus_acquired (constructor None None)))) of
        Inr s \<Rightarrow> constructor None (cache_file s)
      | Inl e \<Rightarrow> constructor None None)"

text \<open>
  A service with two live notifications, 7 and then 0, whose bus callback has run: the
  example service after the callback and one more call, which asked for a new id.
\<close>

definition example_pair :: service where
  "example_pair =
     snd (Notify_call (example_call\<lparr>call_appName := ''Chat''\<rparr>) (bus_acquired example_service))"

section \<open>Properties\<close>

subsection \<open>What one call of \<^verbatim>\<open>Notify\<close> changes\<close>

lemma Notify_fst:
  "fst (Notify now fe app rid icon summ bod acts hints s) = (if rid \<noteq> 0 then rid else idCount s)"
  by (simp add: Notify_def Let_def)

lemma Notify_idCount:
  "idCount (snd (Notify now fe app rid icon summ bod acts hints s)) =
     (if rid \<noteq> 0 then idCount s else idCount s + 1)"
  by (simp add: Notify_def Let_def cache_def)

lemma Notify_dnd:
  "dnd (snd (Notify now fe app rid icon summ bod acts hints s)) = dnd s"
  by (simp add: Notify_def Let_def cache_def)

lemma Notify_notifications:
  "notifications (snd (Notify now fe app rid icon summ bod acts hints s)) =
     AList.update (if rid \<noteq> 0 then rid else idCount s)
       (Notify_object now fe app (if rid \<noteq> 0 then rid else idCount s) icon summ bod acts hints (dnd s))
       (notifications s)"
  by (simp add: Notify_def Let_def cache_def)

lemma Notify_stored:
  "map_of (notifications (snd (Notify now fe app rid icon summ bod acts hints s)))
     (fst (Notify now fe app rid icon summ bod acts hints s)) =
   Some (Notify_object now fe app (fst (Notify now fe app rid icon summ bod acts hints s))
           icon summ bod acts hints (dnd s))"
  by (simp add: Notify_notifications Notify_fst update_conv')

lemma Notify_cache_file:
  "cache_file (snd (Notify now fe app rid icon summ bod acts hints s)) =
     Some (map (\<lambda>(k, n). cache_entry n)
       (notifications (snd (Notify now fe app rid icon summ bod acts hints s))))"
  by (simp add: Notify_def Let_def cache_def)

lemma Notify_call_fst:
  "fst (Notify_call c s) = (if call_replacesId c \<noteq> 0 then call_replacesId c else idCount s)"
  by (simp add: Notify_call_def Notify_fst)

lemma Notify_call_idCount:
  "idCount (snd (Notify_call c s)) =
     (if call_replacesId c \<noteq> 0 then idCount s else idCount s + 1)"
  by (simp add: Notify_call_def Notify_idCount)

lemma Notify_call_dnd: "dnd (snd (Notify_call c s)) = dnd s"
  by (simp add: Notify_call_def Notify_dnd)

lemma Notify_call_notifications:
  "notifications (snd (Notify_call c s)) =
     AList.update (fst (Notify_call c s))
       (Notify_object (call_now c) (call_file_exists c) (call_appName c) (fst (Notify_call c s))
          (call_appIcon c) (call_summary c) (call_body c) (call_acts c) (call_hints c) (dnd s))
       (notifications s)"
  by (simp add: Notify_call_def Notify_notifications Notify_fst)

subsection \<open>The \<^verbatim>\<open>Map\<close>\<close>

lemma map_of_update_other:
  "j \<noteq> k \<Longrightarrow> map_of (AList.update k v al) j = map_of al j"
  by (simp add: update_conv')

lemma keys_update_present:
  "map_of al k \<noteq> None \<Longrightarrow> map fst (AList.update k v al) = map fst al"
  by (simp add: update_keys map_of_eq_None_iff)

lemma keys_update_absent:
  "map_of al k = None \<Longrightarrow> map fst (AList.update k v al) = map fst al @ [k]"
  by (simp add: update_keys map_of_eq_None_iff)

lemma map_of_delete_same: "map_of (AList.delete k al) k = None"
  by (simp add: delete_conv')

subsection \<open>What \<^verbatim>\<open>_cache\<close>, the bus callback and \<^verbatim>\<open>CloseNotification\<close> change\<close>

lemma cache_notifications: "notifications (cache s) = notifications s"
  by (simp add: cache_def Let_def)

lemma cache_idCount: "idCount (cache s) = idCount s"
  by (simp add: cache_def Let_def)

lemma cache_dnd: "dnd (cache s) = dnd s"
  by (simp add: cache_def Let_def)

lemma cache_timeout_ms: "timeout_ms (cache s) = timeout_ms s"
  by (simp add: cache_def Let_def)

lemma cache_dbus: "dbus (cache s) = dbus s"
  by (simp add: cache_def Let_def)

lemma cache_cache_file:
  "cache_file (cache s) = Some (map (\<lambda>(k, n). cache_entry n) (notifications s))"
  by (simp add: cache_def Let_def)

lemma cache_effects:
  "effects (cache s) =
     effects s @ [Ensure_directory, Write_cache (map (\<lambda>(k, n). cache_entry n) (notifications s))]"
  by (simp add: cache_def Let_def)

lemma bus_acquired_dbus: "dbus (bus_acquired s)"
  by (simp add: bus_acquired_def)

lemma bus_acquired_notifications: "notifications (bus_acquired s) = notifications s"
  by (simp add: bus_acquired_def)

lemma bus_acquired_idCount: "idCount (bus_acquired s) = idCount s"
  by (simp add: bus_acquired_def)

lemma bus_acquired_dnd: "dnd (bus_acquired s) = dnd s"
  by (simp add: bus_acquired_def)

lemma Notify_dbus:
  "dbus (snd (Notify now fe app rid icon summ bod acts hints s)) = dbus s"
  by (simp add: Notify_def Let_def cache_def)

lemma Notify_call_dbus: "dbus (snd (Notify_call c s)) = dbus s"
  by (simp add: Notify_call_def Notify_dbus)

lemma Close_absent: "map_of (notifications s) i = None \<Longrightarrow> CloseNotification i s = Inr s"
  by (simp add: CloseNotification_def)

lemma Dismiss_absent: "map_of (notifications s) i = None \<Longrightarrow> DismissNotification i s = s"
  by (simp add: DismissNotification_def)

lemma Invoke_absent: "map_of (notifications s) i = None \<Longrightarrow> InvokeAction i a s = Inr s"
  by (simp add: InvokeAction_def)

lemma Close_unassigned:
  "\<not> dbus s \<Longrightarrow> map_of (notifications s) i \<noteq> None \<Longrightarrow> CloseNotification i s = Inl TypeError"
  by (auto simp add: CloseNotification_def)

lemma Invoke_unassigned:
  "\<not> dbus s \<Longrightarrow> map_of (notifications s) i \<noteq> None \<Longrightarrow> InvokeAction i a s = Inl TypeError"
  by (auto simp add: InvokeAction_def)

lemma Close_live:
  "dbus s \<Longrightarrow> map_of (notifications s) i \<noteq> None \<Longrightarrow>
   CloseNotification i s =
     Inr (cache
       (s\<lparr>notifications := AList.delete i (notifications s),
          effects := effects s @ [Signal_NotificationClosed i 3, Emit_closed i, Emit_changed]\<rparr>))"
  by (auto simp add: CloseNotification_def)

lemma Close_removes:
  "CloseNotification i s = Inr s' \<Longrightarrow> map_of (notifications s') i = None"
proof (cases "map_of (notifications s) i = None")
  case True
  assume "CloseNotification i s = Inr s'"
  with True have "s' = s" by (simp add: Close_absent)
  with True show ?thesis by simp
next
  case False
  assume r: "CloseNotification i s = Inr s'"
  have d: "dbus s"
  proof (rule ccontr)
    assume "\<not> dbus s"
    then have "CloseNotification i s = Inl TypeError" using False by (rule Close_unassigned)
    with r show False by simp
  qed
  have "s' = cache
       (s\<lparr>notifications := AList.delete i (notifications s),
          effects := effects s @ [Signal_NotificationClosed i 3, Emit_closed i, Emit_changed]\<rparr>)"
    using r Close_live [OF d False] by simp
  then show ?thesis by (simp add: cache_notifications map_of_delete_same)
qed

lemma Invoke_live:
  assumes "dbus s" and "map_of (notifications s) i \<noteq> None"
  shows "InvokeAction i a s =
     Inr (cache (cache
       (s\<lparr>notifications := AList.delete i (notifications s),
          effects := effects s @ [Signal_ActionInvoked i a, Signal_NotificationClosed i 3,
            Emit_closed i, Emit_changed]\<rparr>)))"
proof -
  let ?s1 = "s\<lparr>effects := effects s @ [Signal_ActionInvoked i a]\<rparr>"
  have d1: "dbus ?s1" using assms(1) by simp
  have l1: "map_of (notifications ?s1) i \<noteq> None" using assms(2) by simp
  have "InvokeAction i a s =
      (case CloseNotification i ?s1 of Inl e \<Rightarrow> Inl e | Inr s1 \<Rightarrow> Inr (cache s1))"
    using assms by (auto simp add: InvokeAction_def)
  then show ?thesis unfolding Close_live [OF d1 l1] by simp
qed

subsection \<open>The loop over the flat list of actions\<close>

text \<open>
  The loop runs on an index and an accumulator. Two facts turn it into a recursion on the
  list: the accumulator is a prefix of the result, and the loop over \<open>x # y # r\<close> from
  index \<open>i + 2\<close> is the loop over \<open>r\<close> from \<open>i\<close>. Both go by induction on the number of
  elements that are left.
\<close>

lemma Notify_loop_acc:
  "Notify_loop acts i acc = acc @ Notify_loop acts i []"
proof (induction "length acts - i" arbitrary: i acc rule: less_induct)
  case less
  show ?case
  proof (cases "i < length acts")
    case True
    let ?e = "if at acts (i + 1) \<noteq> Some '''' then [\<lparr>id_a = acts ! i, label = at acts (i + 1)\<rparr>] else []"
    have m: "length acts - (i + 2) < length acts - i" using True by arith
    have "Notify_loop acts i acc = Notify_loop acts (i + 2) (acc @ ?e)"
      using True by (subst Notify_loop.simps) simp
    also have "\<dots> = (acc @ ?e) @ Notify_loop acts (i + 2) []"
      by (rule less [OF m])
    also have "\<dots> = acc @ (?e @ Notify_loop acts (i + 2) [])" by simp
    also have "?e @ Notify_loop acts (i + 2) [] = Notify_loop acts (i + 2) ?e"
      by (rule less [OF m, symmetric])
    also have "Notify_loop acts (i + 2) ?e = Notify_loop acts i []"
      using True by (subst (2) Notify_loop.simps) simp
    finally show ?thesis .
  next
    case False
    then show ?thesis by (simp add: Notify_loop.simps)
  qed
qed

lemma Notify_loop_shift:
  "Notify_loop (x # y # r) (i + 2) acc = Notify_loop r i acc"
proof (induction "length r - i" arbitrary: i acc rule: less_induct)
  case less
  show ?case
  proof (cases "i < length r")
    case True
    have m: "length r - (i + 2) < length r - i" using True by arith
    have a: "at (x # y # r) (i + 2 + 1) = at r (i + 1)" by (simp add: at_def)
    have b: "(x # y # r) ! (i + 2) = r ! i" by simp
    have c: "i + 2 < length (x # y # r)" using True by simp
    have "Notify_loop (x # y # r) (i + 2) acc =
          Notify_loop (x # y # r) (i + 2 + 2)
            (if at r (i + 1) \<noteq> Some '''' then acc @ [\<lparr>id_a = r ! i, label = at r (i + 1)\<rparr>] else acc)"
      by (subst Notify_loop.simps) (simp only: a b c if_True)
    also have "\<dots> = Notify_loop r (i + 2)
            (if at r (i + 1) \<noteq> Some '''' then acc @ [\<lparr>id_a = r ! i, label = at r (i + 1)\<rparr>] else acc)"
      by (rule less [OF m])
    also have "\<dots> = Notify_loop r i acc"
      using True by (subst (2) Notify_loop.simps) simp
    finally show ?thesis .
  next
    case False
    then show ?thesis by (simp add: Notify_loop.simps)
  qed
qed

lemma Notify_loop_Nil: "Notify_loop [] 0 [] = []"
  by (simp add: Notify_loop.simps)

lemma Notify_loop_single: "Notify_loop [a] 0 [] = [\<lparr>id_a = a, label = None\<rparr>]"
  by (simp add: Notify_loop.simps at_def)

lemma Notify_loop_pair:
  "Notify_loop (a # l # r) 0 [] =
     (if l \<noteq> '''' then [\<lparr>id_a = a, label = Some l\<rparr>] else []) @ Notify_loop r 0 []"
proof -
  let ?e = "if l \<noteq> '''' then [\<lparr>id_a = a, label = Some l\<rparr>] else []"
  have "Notify_loop (a # l # r) 0 [] = Notify_loop (a # l # r) (0 + 2) ?e"
    by (subst Notify_loop.simps) (simp add: at_def)
  also have "\<dots> = Notify_loop r 0 ?e" by (rule Notify_loop_shift)
  also have "\<dots> = ?e @ Notify_loop r 0 []" by (rule Notify_loop_acc)
  finally show ?thesis .
qed

lemma Notify_loop_even:
  "even (length acts) \<Longrightarrow> Notify_loop acts 0 [] = spec_actions acts"
proof (induction acts rule: pairs.induct)
  case 1
  then show ?case by (simp add: Notify_loop_Nil spec_actions_def)
next
  case (2 a)
  then show ?case by simp
next
  case (3 a b r)
  then show ?case by (simp add: Notify_loop_pair spec_actions_def)
qed

lemma Notify_loop_odd:
  "odd (length acts) \<Longrightarrow>
   Notify_loop acts 0 [] = spec_actions (butlast acts) @ [\<lparr>id_a = last acts, label = None\<rparr>]"
proof (induction acts rule: pairs.induct)
  case 1
  then show ?case by simp
next
  case (2 a)
  then show ?case by (simp add: Notify_loop_single spec_actions_def)
next
  case (3 a b r)
  then have "r \<noteq> []" by auto
  with 3 show ?case by (simp add: Notify_loop_pair spec_actions_def)
qed

subsection \<open>The example services\<close>

lemma fresh_idCount: "idCount (constructor cfg None) = 0"
  by (simp add: constructor_def readFromFile_def register_def)

lemma fresh_notifications: "notifications (constructor cfg None) = []"
  by (simp add: constructor_def readFromFile_def register_def)

lemma fresh_dnd: "dnd (constructor cfg None) = False"
  by (simp add: constructor_def readFromFile_def register_def)

lemma example_object:
  "Notify_object 5 (\<lambda>p. False) app i ''icon'' ''Hi'' ''text'' [''a1'', ''Open''] no_hints False =
     \<lparr>id_n = i, appName = app, appEntry = None, appIcon = ''icon'', summary = ''Hi'',
      body = ''text'', actions = [\<lparr>id_a = ''a1'', label = Some ''Open''\<rparr>],
      urgency = Some ''normal'', time = 5, image_n = None, popup = True\<rparr>"
  by (simp add: Notify_object_def Notify_loop_pair Notify_loop_Nil no_hints_def
      decode_urgency_def urgency_index_def at_def URGENCY_def parseImage_def image_or_icon_def
      isFile_def)

lemma example_service_notifications:
  "notifications example_service =
     [(7, \<lparr>id_n = 7, appName = ''App'', appEntry = None, appIcon = ''icon'', summary = ''Hi'',
           body = ''text'', actions = [\<lparr>id_a = ''a1'', label = Some ''Open''\<rparr>],
           urgency = Some ''normal'', time = 5, image_n = None, popup = True\<rparr>)]"
  by (simp add: example_service_def example_call_def Notify_call_notifications Notify_call_fst
      fresh_notifications fresh_dnd example_object)

lemma example_service_cache_file:
  "cache_file example_service =
     Some [\<lparr>id_n = 7, appName = ''App'', appEntry = None, appIcon = ''icon'', summary = ''Hi'',
           body = ''text'', actions = [\<lparr>id_a = ''a1'', label = Some ''Open''\<rparr>],
           urgency = Some ''normal'', time = 5, image_n = None, popup = False, action = []\<rparr>]"
proof -
  have "cache_file example_service =
      Some (map (\<lambda>(k, n). cache_entry n) (notifications example_service))"
    unfolding example_service_def Notify_call_def by (rule Notify_cache_file)
  then show ?thesis by (simp add: example_service_notifications cache_entry_def)
qed

lemma three_calls_notifications:
  "notifications (snd (Notify_run [example_call, example_call, example_call]
      (bus_acquired (constructor None None)))) =
     [(0, Notify_object 5 (\<lambda>p. False) ''App'' 0 ''icon'' ''Hi'' ''text'' [''a1'', ''Open''] no_hints False),
      (1, Notify_object 5 (\<lambda>p. False) ''App'' 1 ''icon'' ''Hi'' ''text'' [''a1'', ''Open''] no_hints False),
      (2, Notify_object 5 (\<lambda>p. False) ''App'' 2 ''icon'' ''Hi'' ''text'' [''a1'', ''Open''] no_hints False)]"
  by (simp add: split_beta Notify_call_notifications Notify_call_fst Notify_call_idCount
      Notify_call_dnd bus_acquired_notifications bus_acquired_idCount bus_acquired_dnd
      fresh_idCount fresh_notifications fresh_dnd example_call_def numeral_2_eq_2)

lemma three_calls_dbus:
  "dbus (snd (Notify_run [example_call, example_call, example_call]
      (bus_acquired (constructor None None))))"
  by (simp add: split_beta Notify_call_dbus bus_acquired_dbus)

lemma example_restart_file:
  "example_restart =
     constructor None
       (Some [cache_entry (Notify_object 5 (\<lambda>p. False) ''App'' 1 ''icon'' ''Hi'' ''text'' [''a1'', ''Open''] no_hints False),
              cache_entry (Notify_object 5 (\<lambda>p. False) ''App'' 2 ''icon'' ''Hi'' ''text'' [''a1'', ''Open''] no_hints False)])"
proof -
  let ?s = "snd (Notify_run [example_call, example_call, example_call]
      (bus_acquired (constructor None None)))"
  let ?c = "?s\<lparr>notifications := AList.delete 0 (notifications ?s),
          effects := effects ?s @ [Signal_NotificationClosed 0 3, Emit_closed 0, Emit_changed]\<rparr>"
  have live: "map_of (notifications ?s) 0 \<noteq> None"
    unfolding three_calls_notifications by simp
  have c: "CloseNotification 0 ?s = Inr (cache ?c)"
    by (rule Close_live [OF three_calls_dbus live])
  have "cache_file (cache ?c) =
      Some (map (\<lambda>(k, n). cache_entry n) (AList.delete 0 (notifications ?s)))"
    unfolding cache_cache_file by simp
  then have f: "cache_file (cache ?c) =
      Some [cache_entry (Notify_object 5 (\<lambda>p. False) ''App'' 1 ''icon'' ''Hi'' ''text'' [''a1'', ''Open''] no_hints False),
            cache_entry (Notify_object 5 (\<lambda>p. False) ''App'' 2 ''icon'' ''Hi'' ''text'' [''a1'', ''Open''] no_hints False)]"
    unfolding three_calls_notifications by simp
  have "example_restart = constructor None (cache_file (cache ?c))"
    unfolding example_restart_def c by simp
  then show ?thesis unfolding f .
qed

lemma example_restart_notifications:
  "notifications example_restart =
     [(1, \<lparr>id_n = 1, appName = ''App'', appEntry = None, appIcon = ''icon'', summary = ''Hi'',
           body = ''text'', actions = [\<lparr>id_a = ''a1'', label = Some ''Open''\<rparr>],
           urgency = Some ''normal'', time = 5, image_n = None, popup = False\<rparr>),
      (2, \<lparr>id_n = 2, appName = ''App'', appEntry = None, appIcon = ''icon'', summary = ''Hi'',
           body = ''text'', actions = [\<lparr>id_a = ''a1'', label = Some ''Open''\<rparr>],
           urgency = Some ''normal'', time = 5, image_n = None, popup = False\<rparr>)]"
  unfolding example_restart_file
  by (simp add: constructor_def readFromFile_def readFromFile_each_def register_def
      example_object cache_entry_def notification.truncate_def)

lemma example_restart_idCount: "idCount example_restart = 2"
  unfolding example_restart_file
  by (simp add: constructor_def readFromFile_def readFromFile_each_def register_def
      example_object cache_entry_def notification.truncate_def)

lemma example_service_idCount: "idCount example_service = 0"
  by (simp add: example_service_def example_call_def Notify_call_idCount fresh_idCount)

lemma example_service_dnd: "dnd example_service = False"
  by (simp add: example_service_def Notify_call_dnd fresh_dnd)

lemma example_pair_notifications:
  "notifications example_pair =
     [(7, \<lparr>id_n = 7, appName = ''App'', appEntry = None, appIcon = ''icon'', summary = ''Hi'',
           body = ''text'', actions = [\<lparr>id_a = ''a1'', label = Some ''Open''\<rparr>],
           urgency = Some ''normal'', time = 5, image_n = None, popup = True\<rparr>),
      (0, \<lparr>id_n = 0, appName = ''Chat'', appEntry = None, appIcon = ''icon'', summary = ''Hi'',
           body = ''text'', actions = [\<lparr>id_a = ''a1'', label = Some ''Open''\<rparr>],
           urgency = Some ''normal'', time = 5, image_n = None, popup = True\<rparr>)]"
  by (simp add: example_pair_def example_call_def Notify_call_notifications Notify_call_fst
      bus_acquired_notifications bus_acquired_idCount bus_acquired_dnd
      example_service_notifications example_service_idCount example_service_dnd example_object)

lemma example_pair_idCount: "idCount example_pair = 1"
  by (simp add: example_pair_def example_call_def Notify_call_idCount bus_acquired_idCount
      example_service_idCount)

lemma example_pair_dnd: "dnd example_pair = False"
  by (simp add: example_pair_def Notify_call_dnd bus_acquired_dnd example_service_dnd)

lemma example_pair_dbus: "dbus example_pair"
  by (simp add: example_pair_def Notify_call_dbus bus_acquired_dbus)

lemma restarted_notifications:
  "notifications (constructor None (cache_file example_service)) =
     [(7, \<lparr>id_n = 7, appName = ''App'', appEntry = None, appIcon = ''icon'', summary = ''Hi'',
           body = ''text'', actions = [\<lparr>id_a = ''a1'', label = Some ''Open''\<rparr>],
           urgency = Some ''normal'', time = 5, image_n = None, popup = False\<rparr>)]"
  by (simp add: example_service_cache_file constructor_def readFromFile_def
      readFromFile_each_def register_def notification.truncate_def)

lemma restarted_dbus: "\<not> dbus (constructor None (cache_file example_service))"
  by (simp add: example_service_cache_file constructor_def readFromFile_def
      readFromFile_each_def register_def)

subsection \<open>C1: writing the cache and reading it back\<close>

text \<open>
  C1 says that a record read back from the cache has its \<^verbatim>\<open>actions\<close> cleared. \<^verbatim>\<open>_cache\<close> sets
  the property \<^verbatim>\<open>action\<close>, not \<^verbatim>\<open>actions\<close>, so the actions are written to the file and read
  back with the record. Here the service \<open>example_service\<close>, whose notification 7 has the
  action \<^verbatim>\<open>{id:"a1", label:"Open"}\<close>, is started again from the cache file it wrote: the
  restored record has the same action; its popup flag is false.
\<close>

theorem cache_keeps_actions:
  "map_option actions (map_of (notifications example_service) 7)
     = Some [\<lparr>id_a = ''a1'', label = Some ''Open''\<rparr>] \<and>
   map_option actions (map_of (notifications (constructor None (cache_file example_service))) 7)
     = Some [\<lparr>id_a = ''a1'', label = Some ''Open''\<rparr>] \<and>
   notifications (constructor None (cache_file example_service))
     = map (\<lambda>(k, n). (k, n\<lparr>popup := False\<rparr>)) (notifications example_service)"
  by (simp add: example_service_notifications example_service_cache_file constructor_def
      readFromFile_def readFromFile_each_def register_def notification.truncate_def)

subsection \<open>C2: decoding the urgency hint\<close>

text \<open>
  C2, as amended. For every call of \<^verbatim>\<open>Notify\<close>, the record stored under the returned id has
  urgency \<^verbatim>\<open>'normal'\<close> when the urgency hint is absent or is the byte 1, and \<^verbatim>\<open>'critical'\<close>
  when it is the byte 2; when the byte is 3 or more the index is outside \<^verbatim>\<open>_URGENCY\<close> and the
  stored urgency is \<^verbatim>\<open>undefined\<close>. (\<open>u = Some (Some x)\<close>: a record is stored and its urgency
  is \<open>x\<close>; \<open>u = Some None\<close>: a record is stored and its urgency is \<^verbatim>\<open>undefined\<close>.)
\<close>

theorem urgency_decoding:
  "let r = Notify now fe app rid icon summ bod acts hints s;
       u = map_option urgency (map_of (notifications (snd r)) (fst r))
   in (hint_urgency hints = None \<longrightarrow> u = Some (Some ''normal'')) \<and>
      (hint_urgency hints = Some 1 \<longrightarrow> u = Some (Some ''normal'')) \<and>
      (hint_urgency hints = Some 2 \<longrightarrow> u = Some (Some ''critical'')) \<and>
      (\<forall>b. hint_urgency hints = Some b \<and> 3 \<le> unat b \<longrightarrow> u = Some None)"
proof -
  have u: "map_option urgency
             (map_of (notifications (snd (Notify now fe app rid icon summ bod acts hints s)))
                (fst (Notify now fe app rid icon summ bod acts hints s))) =
           Some (decode_urgency hints)"
    by (simp add: Notify_stored Notify_object_def)
  have absent: "hint_urgency hints = None \<Longrightarrow> decode_urgency hints = Some ''normal''"
    by (simp add: decode_urgency_def urgency_index_def at_def URGENCY_def)
  have one: "hint_urgency hints = Some 1 \<Longrightarrow> decode_urgency hints = Some ''normal''"
    by (simp add: decode_urgency_def urgency_index_def at_def URGENCY_def)
  have two: "hint_urgency hints = Some 2 \<Longrightarrow> decode_urgency hints = Some ''critical''"
    by (simp add: decode_urgency_def urgency_index_def at_def URGENCY_def)
  have more: "hint_urgency hints = Some b \<Longrightarrow> 3 \<le> unat b \<Longrightarrow> decode_urgency hints = None" for b
    by (simp add: decode_urgency_def urgency_index_def at_def URGENCY_def)
  show ?thesis
    unfolding Let_def u using absent one two more by simp
qed

text \<open>The four cases at concrete hints: absent, 1, 2 and 7.\<close>

theorem urgency_decoding_witness:
  "map_option urgency (map_of (notifications (snd
      (Notify 5 (\<lambda>p. False) ''App'' 0 ''icon'' ''Hi'' ''text'' [] no_hints (constructor None None)))) 0)
     = Some (Some ''normal'') \<and>
   map_option urgency (map_of (notifications (snd
      (Notify 5 (\<lambda>p. False) ''App'' 0 ''icon'' ''Hi'' ''text'' [] (no_hints\<lparr>hint_urgency := Some 1\<rparr>) (constructor None None)))) 0)
     = Some (Some ''normal'') \<and>
   map_option urgency (map_of (notifications (snd
      (Notify 5 (\<lambda>p. False) ''App'' 0 ''icon'' ''Hi'' ''text'' [] (no_hints\<lparr>hint_urgency := Some 2\<rparr>) (constructor None None)))) 0)
     = Some (Some ''critical'') \<and>
   map_option urgency (map_of (notifications (snd
      (Notify 5 (\<lambda>p. False) ''App'' 0 ''icon'' ''Hi'' ''text'' [] (no_hints\<lparr>hint_urgency := Some 7\<rparr>) (constructor None None)))) 0)
     = Some None"
  using
    urgency_decoding [of 5 "\<lambda>p. False" "''App''" 0 "''icon''" "''Hi''" "''text''" "[]" no_hints "constructor None None"]
    urgency_decoding [of 5 "\<lambda>p. False" "''App''" 0 "''icon''" "''Hi''" "''text''" "[]" "no_hints\<lparr>hint_urgency := Some 1\<rparr>" "constructor None None"]
    urgency_decoding [of 5 "\<lambda>p. False" "''App''" 0 "''icon''" "''Hi''" "''text''" "[]" "no_hints\<lparr>hint_urgency := Some 2\<rparr>" "constructor None None"]
    urgency_decoding [of 5 "\<lambda>p. False" "''App''" 0 "''icon''" "''Hi''" "''text''" "[]" "no_hints\<lparr>hint_urgency := Some 7\<rparr>" "constructor None None"]
  by (simp add: Let_def Notify_fst fresh_idCount no_hints_def)

text \<open>
  The claim as stated says that a byte out of range yields \<^verbatim>\<open>'normal'\<close>. At the byte 3
  the stored urgency is \<^verbatim>\<open>undefined\<close>: \<^verbatim>\<open>3 || 1\<close> is 3 and \<^verbatim>\<open>_URGENCY[3]\<close> does not exist.
\<close>

theorem urgency_out_of_range_counterexample:
  "map_option urgency (map_of (notifications (snd
      (Notify 5 (\<lambda>p. False) ''App'' 0 ''icon'' ''Hi'' ''text'' []
         \<lparr>hint_image_data = None, hint_desktop_entry = None, hint_urgency = Some 3\<rparr>
         (constructor None None)))) 0) = Some None
   \<and>
   map_option urgency (map_of (notifications (snd
      (Notify 5 (\<lambda>p. False) ''App'' 0 ''icon'' ''Hi'' ''text'' []
         \<lparr>hint_image_data = None, hint_desktop_entry = None, hint_urgency = Some 3\<rparr>
         (constructor None None)))) 0) \<noteq> Some (Some ''normal'')"
  by (simp add: Notify_notifications fresh_idCount fresh_notifications Notify_object_def
      decode_urgency_def urgency_index_def at_def URGENCY_def)

text \<open>
  The byte 0 is falsy, so \<^verbatim>\<open>0 || 1\<close> is 1: the entry \<^verbatim>\<open>'low'\<close> of \<^verbatim>\<open>_URGENCY\<close> is never
  selected.
\<close>

lemma urgency_zero_byte:
  "decode_urgency \<lparr>hint_image_data = None, hint_desktop_entry = None, hint_urgency = Some 0\<rparr>
     = Some ''normal''"
  by (simp add: decode_urgency_def urgency_index_def at_def URGENCY_def)

subsection \<open>C3: the counter after the cache file is read\<close>

text \<open>
  C3 says that after the cache file is read the counter is greater than every id read, so
  that a call with \<^verbatim>\<open>replacesId = 0\<close> never returns the id of a restored notification.
  \<^verbatim>\<open>_readFromFile\<close> advances the counter only when \<^verbatim>\<open>n.id > this._idCount\<close>, so an id equal
  to the counter leaves it where it is. In \<open>example_restart\<close> the file holds the ids 1 and
  2, in this order: the id 1 sets the counter to 2, the id 2 is not greater than 2, and the
  counter stays 2. The next call that asks for a new id returns 2 and the restored
  notification 2 is overwritten.
\<close>

theorem restored_id_collision:
  "map fst (notifications example_restart) = [1, 2] \<and>
   idCount example_restart = 2 \<and>
   map_option appName (map_of (notifications example_restart) 2) = Some ''App'' \<and>
   fst (Notify_call (example_call\<lparr>call_appName := ''Other''\<rparr>) example_restart) = 2 \<and>
   map_option appName
     (map_of (notifications
        (snd (Notify_call (example_call\<lparr>call_appName := ''Other''\<rparr>) example_restart))) 2)
     = Some ''Other''"
  by (simp add: example_restart_notifications example_restart_idCount Notify_call_fst
      Notify_call_notifications example_call_def update_conv' Notify_object_def)

subsection \<open>C4: parsing the actions\<close>

text \<open>
  C4, as amended. For every call of \<^verbatim>\<open>Notify\<close>, the actions of the record stored under the
  returned id are: for a flat list of even length, the consecutive pairs (id, label) whose
  label is not the empty string, in order; for a flat list of odd length, those of the list
  without its last element, followed by one more action whose id is the last element and
  whose label is \<^verbatim>\<open>undefined\<close>. In particular \<^verbatim>\<open>["a1","Open","a2",""]\<close> yields exactly the
  action \<^verbatim>\<open>{id:"a1", label:"Open"}\<close>.
\<close>

theorem actions_parsing:
  "let r = Notify now fe app rid icon summ bod acts hints s;
       a = map_option actions (map_of (notifications (snd r)) (fst r))
   in (even (length acts) \<longrightarrow> a = Some (spec_actions acts)) \<and>
      (odd (length acts) \<longrightarrow>
         a = Some (spec_actions (butlast acts) @ [\<lparr>id_a = last acts, label = None\<rparr>])) \<and>
      (acts = [''a1'', ''Open'', ''a2'', ''''] \<longrightarrow>
         a = Some [\<lparr>id_a = ''a1'', label = Some ''Open''\<rparr>])"
proof -
  have a: "map_option actions
             (map_of (notifications (snd (Notify now fe app rid icon summ bod acts hints s)))
                (fst (Notify now fe app rid icon summ bod acts hints s))) =
           Some (Notify_loop acts 0 [])"
    by (simp add: Notify_stored Notify_object_def)
  have example: "spec_actions [''a1'', ''Open'', ''a2'', ''''] = [\<lparr>id_a = ''a1'', label = Some ''Open''\<rparr>]"
    by (simp add: spec_actions_def)
  have e: "acts = [''a1'', ''Open'', ''a2'', ''''] \<Longrightarrow>
        Notify_loop acts 0 [] = [\<lparr>id_a = ''a1'', label = Some ''Open''\<rparr>]"
    using Notify_loop_even [of acts] example by simp
  show ?thesis
    unfolding Let_def a using Notify_loop_even [of acts] Notify_loop_odd [of acts] e by simp
qed

text \<open>A list of even length, which is the example of the claim, and one of odd length.\<close>

theorem actions_parsing_witness:
  "map_option actions (map_of (notifications (snd
      (Notify 5 (\<lambda>p. False) ''App'' 0 ''icon'' ''Hi'' ''text'' [''a1'', ''Open'', ''a2'', '''']
         no_hints (constructor None None)))) 0)
     = Some [\<lparr>id_a = ''a1'', label = Some ''Open''\<rparr>] \<and>
   map_option actions (map_of (notifications (snd
      (Notify 5 (\<lambda>p. False) ''App'' 0 ''icon'' ''Hi'' ''text'' [''a1'', ''Open'', ''a2'']
         no_hints (constructor None None)))) 0)
     = Some [\<lparr>id_a = ''a1'', label = Some ''Open''\<rparr>, \<lparr>id_a = ''a2'', label = None\<rparr>]"
  using
    actions_parsing [of 5 "\<lambda>p. False" "''App''" 0 "''icon''" "''Hi''" "''text''"
      "[''a1'', ''Open'', ''a2'', '''']" no_hints "constructor None None"]
    actions_parsing [of 5 "\<lambda>p. False" "''App''" 0 "''icon''" "''Hi''" "''text''"
      "[''a1'', ''Open'', ''a2'']" no_hints "constructor None None"]
  by (simp add: Let_def Notify_fst fresh_idCount spec_actions_def)

text \<open>
  The claim as stated says that the trailing id of a list of odd length is dropped. For
  \<^verbatim>\<open>["a1"]\<close> the loop reads \<^verbatim>\<open>acts[1]\<close>, which is \<^verbatim>\<open>undefined\<close> and so differs from \<^verbatim>\<open>''\<close>,
  and stores the action \<^verbatim>\<open>{label: undefined, id: "a1"}\<close>; the words of the specification
  give no action.
\<close>

theorem actions_odd_length_counterexample:
  "map_option actions (map_of (notifications (snd
      (Notify 5 (\<lambda>p. False) ''App'' 0 ''icon'' ''Hi'' ''text'' [''a1'']
         \<lparr>hint_image_data = None, hint_desktop_entry = None, hint_urgency = None\<rparr>
         (constructor None None)))) 0)
     = Some [\<lparr>id_a = ''a1'', label = None\<rparr>]
   \<and>
   map_option actions (map_of (notifications (snd
      (Notify 5 (\<lambda>p. False) ''App'' 0 ''icon'' ''Hi'' ''text'' [''a1'']
         \<lparr>hint_image_data = None, hint_desktop_entry = None, hint_urgency = None\<rparr>
         (constructor None None)))) 0)
     \<noteq> Some (spec_actions [''a1''])"
  by (simp add: Notify_notifications fresh_idCount fresh_notifications Notify_object_def
      Notify_loop_single spec_actions_def)

subsection \<open>C5: replacing a live notification\<close>

text \<open>
  C5. For every state and every call of \<^verbatim>\<open>Notify\<close> whose \<^verbatim>\<open>replacesId\<close> is not 0 and is the id
  of a live notification: the call returns \<^verbatim>\<open>replacesId\<close>; the counter is unchanged; the
  record under that id is fully replaced, every field of it coming from this call: the id
  is \<^verbatim>\<open>replacesId\<close>, the application name, the icon, the summary and the body are the
  arguments, the desktop entry and the urgency are read from the hints, the actions are
  parsed from the flat list, the time is the time of the call, the image is resolved from
  the hints and the icon, and the popup flag is the negation of the do-not-disturb flag;
  nothing of the old record is kept. Every other entry of the registry is unchanged, and so
  is the order of the ids.
\<close>

theorem Notify_replaces_live_id:
  assumes "rid \<noteq> 0" and "map_of (notifications s) rid \<noteq> None"
  shows "let r = Notify now fe app rid icon summ bod acts hints s
         in fst r = rid \<and>
            idCount (snd r) = idCount s \<and>
            map_of (notifications (snd r)) rid =
              Some \<lparr>id_n = rid, appName = app, appEntry = hint_desktop_entry hints,
                    appIcon = icon, summary = summ, body = bod,
                    actions = Notify_loop acts 0 [], urgency = decode_urgency hints, time = now,
                    image_n = image_or_icon
                      (fst (parseImage (summ @ string_of_nat rid) (hint_image_data hints)))
                      (isFile fe icon),
                    popup = (\<not> dnd s)\<rparr> \<and>
            (\<forall>j. j \<noteq> rid \<longrightarrow> map_of (notifications (snd r)) j = map_of (notifications s) j) \<and>
            map fst (notifications (snd r)) = map fst (notifications s)"
proof -
  let ?r = "Notify now fe app rid icon summ bod acts hints s"
  let ?n = "\<lparr>id_n = rid, appName = app, appEntry = hint_desktop_entry hints,
             appIcon = icon, summary = summ, body = bod,
             actions = Notify_loop acts 0 [], urgency = decode_urgency hints, time = now,
             image_n = image_or_icon
               (fst (parseImage (summ @ string_of_nat rid) (hint_image_data hints)))
               (isFile fe icon),
             popup = (\<not> dnd s)\<rparr>"
  have 1: "fst ?r = rid" using assms(1) by (simp add: Notify_fst)
  have 2: "idCount (snd ?r) = idCount s" using assms(1) by (simp add: Notify_idCount)
  have n: "notifications (snd ?r) = AList.update rid ?n (notifications s)"
    using assms(1) by (simp add: Notify_notifications Notify_object_def)
  have 3: "map_of (notifications (snd ?r)) rid = Some ?n"
    by (simp add: n update_conv')
  have 4: "\<forall>j. j \<noteq> rid \<longrightarrow> map_of (notifications (snd ?r)) j = map_of (notifications s) j"
    by (simp add: n map_of_update_other)
  have 5: "map fst (notifications (snd ?r)) = map fst (notifications s)"
    unfolding n using assms(2) by (rule keys_update_present)
  show ?thesis unfolding Let_def using 1 2 3 4 5 by simp
qed

text \<open>
  On \<open>example_pair\<close>, whose live ids are 7 and 0 and whose counter is 1, a call replaces 7
  with other values for every argument: every field of the record under 7 is new, the
  record under 0 is the one that was there, the ids are in the same order and the counter
  is still 1.
\<close>

theorem Notify_replaces_live_id_witness:
  "(7::nat) \<noteq> 0 \<and> map_of (notifications example_pair) 7 \<noteq> None \<and>
   fst (Notify 9 (\<lambda>p. p = ''mail.png'') ''Mail'' 7 ''mail.png'' ''New'' ''2 unread''
          [''r'', ''Reply'', ''x'', '''']
          \<lparr>hint_image_data = None, hint_desktop_entry = Some ''mail'', hint_urgency = Some 2\<rparr>
          example_pair) = 7 \<and>
   idCount (snd (Notify 9 (\<lambda>p. p = ''mail.png'') ''Mail'' 7 ''mail.png'' ''New'' ''2 unread''
          [''r'', ''Reply'', ''x'', '''']
          \<lparr>hint_image_data = None, hint_desktop_entry = Some ''mail'', hint_urgency = Some 2\<rparr>
          example_pair)) = 1 \<and>
   notifications (snd (Notify 9 (\<lambda>p. p = ''mail.png'') ''Mail'' 7 ''mail.png'' ''New'' ''2 unread''
          [''r'', ''Reply'', ''x'', '''']
          \<lparr>hint_image_data = None, hint_desktop_entry = Some ''mail'', hint_urgency = Some 2\<rparr>
          example_pair)) =
     [(7, \<lparr>id_n = 7, appName = ''Mail'', appEntry = Some ''mail'', appIcon = ''mail.png'',
           summary = ''New'', body = ''2 unread'',
           actions = [\<lparr>id_a = ''r'', label = Some ''Reply''\<rparr>],
           urgency = Some ''critical'', time = 9, image_n = Some ''mail.png'', popup = True\<rparr>),
      (0, \<lparr>id_n = 0, appName = ''Chat'', appEntry = None, appIcon = ''icon'', summary = ''Hi'',
           body = ''text'', actions = [\<lparr>id_a = ''a1'', label = Some ''Open''\<rparr>],
           urgency = Some ''normal'', time = 5, image_n = None, popup = True\<rparr>)]"
proof -
  let ?h = "\<lparr>hint_image_data = None, hint_desktop_entry = Some ''mail'', hint_urgency = Some 2\<rparr>"
  let ?r = "Notify 9 (\<lambda>p. p = ''mail.png'') ''Mail'' 7 ''mail.png'' ''New'' ''2 unread''
          [''r'', ''Reply'', ''x'', ''''] ?h example_pair"
  let ?new = "\<lparr>id_n = 7, appName = ''Mail'', appEntry = Some ''mail'', appIcon = ''mail.png'',
           summary = ''New'', body = ''2 unread'',
           actions = [\<lparr>id_a = ''r'', label = Some ''Reply''\<rparr>],
           urgency = Some ''critical'', time = 9, image_n = Some ''mail.png'', popup = True\<rparr>"
  let ?old = "\<lparr>id_n = 0, appName = ''Chat'', appEntry = None, appIcon = ''icon'', summary = ''Hi'',
           body = ''text'', actions = [\<lparr>id_a = ''a1'', label = Some ''Open''\<rparr>],
           urgency = Some ''normal'', time = 5, image_n = None, popup = True\<rparr>"
  have h1: "(7::nat) \<noteq> 0" by simp
  have h2: "map_of (notifications example_pair) 7 \<noteq> None"
    by (simp add: example_pair_notifications)
  have acts: "Notify_loop [''r'', ''Reply'', ''x'', ''''] 0 [] = [\<lparr>id_a = ''r'', label = Some ''Reply''\<rparr>]"
    by (simp add: Notify_loop_pair Notify_loop_Nil)
  have urg: "decode_urgency ?h = Some ''critical''"
    by (simp add: decode_urgency_def urgency_index_def at_def URGENCY_def)
  have img: "image_or_icon (fst (parseImage (''New'' @ string_of_nat 7) (hint_image_data ?h)))
               (isFile (\<lambda>p. p = ''mail.png'') ''mail.png'') = Some ''mail.png''"
    by (simp add: parseImage_def image_or_icon_def isFile_def)
  have t: "fst ?r = 7 \<and> idCount (snd ?r) = idCount example_pair \<and>
      map_of (notifications (snd ?r)) 7 = Some ?new \<and>
      (\<forall>j. j \<noteq> 7 \<longrightarrow> map_of (notifications (snd ?r)) j = map_of (notifications example_pair) j) \<and>
      map fst (notifications (snd ?r)) = map fst (notifications example_pair)"
    using Notify_replaces_live_id [OF h1 h2, of 9 "\<lambda>p. p = ''mail.png''" "''Mail''" "''mail.png''"
        "''New''" "''2 unread''" "[''r'', ''Reply'', ''x'', '''']" ?h]
    unfolding Let_def acts urg img by (simp add: example_pair_dnd)
  then have k: "map fst (notifications (snd ?r)) = [7, 0]"
    by (simp add: example_pair_notifications)
  from t have v7: "map_of (notifications (snd ?r)) 7 = Some ?new" by simp
  from t have "map_of (notifications (snd ?r)) 0 = map_of (notifications example_pair) 0" by simp
  then have v0: "map_of (notifications (snd ?r)) 0 = Some ?old"
    by (simp add: example_pair_notifications)
  obtain a b where ab: "notifications (snd ?r) = [a, b]"
    using k by (cases "notifications (snd ?r)") auto
  have fa: "fst a = 7" and fb: "fst b = 0" using k ab by simp_all
  have sa: "snd a = ?new" using v7 ab fa by (cases a) simp
  have sb: "snd b = ?old" using v0 ab fa fb by (cases a, cases b) simp
  have n: "notifications (snd ?r) = [(7, ?new), (0, ?old)]"
    using ab fa fb sa sb by (cases a, cases b) simp
  show ?thesis
    using h1 h2 t n by (simp add: example_pair_idCount)
qed

subsection \<open>C6: the ids of calls that ask for a new id\<close>

lemma Notify_run_ids:
  "\<forall>c \<in> set cs. call_replacesId c = 0 \<Longrightarrow>
   fst (Notify_run cs s) = [idCount s ..< idCount s + length cs]"
proof (induction cs arbitrary: s)
  case Nil
  then show ?case by simp
next
  case (Cons c cs)
  obtain i s1 where c: "Notify_call c s = (i, s1)" by (cases "Notify_call c s")
  have z: "call_replacesId c = 0" using Cons.prems by simp
  have i: "i = idCount s"
    using c z Notify_fst [of "call_now c" "call_file_exists c" "call_appName c" 0
        "call_appIcon c" "call_summary c" "call_body c" "call_acts c" "call_hints c" s]
    by (simp add: Notify_call_def)
  have s1: "idCount s1 = idCount s + 1"
    using c z Notify_idCount [of "call_now c" "call_file_exists c" "call_appName c" 0
        "call_appIcon c" "call_summary c" "call_body c" "call_acts c" "call_hints c" s]
    by (simp add: Notify_call_def)
  have "fst (Notify_run cs s1) = [idCount s1 ..< idCount s1 + length cs]"
    using Cons.prems by (intro Cons.IH) simp
  then have run: "fst (Notify_run (c # cs) s) = idCount s # [Suc (idCount s) ..< Suc (idCount s) + length cs]"
    using c i s1 by (simp add: split_beta)
  have "[idCount s ..< idCount s + length (c # cs)] =
        idCount s # [Suc (idCount s) ..< idCount s + length (c # cs)]"
    by (rule upt_conv_Cons) simp
  then show ?case unfolding run by simp
qed

text \<open>
  C6. For every state and every run of \<^verbatim>\<open>Notify\<close> calls that all have \<^verbatim>\<open>replacesId = 0\<close>, the
  ids returned, one per call, are strictly increasing, and so no two of them are equal.
\<close>

theorem ids_strictly_increasing:
  "\<forall>c \<in> set cs. call_replacesId c = 0 \<Longrightarrow>
   sorted_wrt (<) (fst (Notify_run cs s)) \<and> distinct (fst (Notify_run cs s)) \<and>
   length (fst (Notify_run cs s)) = length cs"
  by (simp add: Notify_run_ids)

text \<open>Three such calls on a service that has just started.\<close>

theorem ids_strictly_increasing_witness:
  "call_replacesId example_call = 0 \<and>
   fst (Notify_run [example_call, example_call, example_call] (constructor None None)) = [0, 1, 2] \<and>
   sorted_wrt (<) (fst (Notify_run [example_call, example_call, example_call] (constructor None None))) \<and>
   distinct (fst (Notify_run [example_call, example_call, example_call] (constructor None None)))"
proof -
  have h: "\<forall>c \<in> set [example_call, example_call, example_call]. call_replacesId c = 0"
    by (simp add: example_call_def)
  have ids: "fst (Notify_run [example_call, example_call, example_call] (constructor None None)) = [0, 1, 2]"
    by (simp add: split_beta Notify_call_fst Notify_call_idCount fresh_idCount example_call_def
        numeral_2_eq_2)
  show ?thesis
    using ids ids_strictly_increasing [OF h, of "constructor None None"]
    by (simp add: example_call_def)
qed

subsection \<open>C7: invoking an action closes the notification\<close>

text \<open>
  C7, as amended. For every state in which the bus object is assigned (the bus callback has
  run), every live id and every action id, \<^verbatim>\<open>InvokeAction\<close> returns, and so does
  \<^verbatim>\<open>CloseNotification\<close> of the same id; \<^verbatim>\<open>InvokeAction\<close> leaves the registry, the counter, the
  flag, the delay and the cache file as \<^verbatim>\<open>CloseNotification\<close> does, and the id is absent from
  the registry afterwards. What it does to the world is: first the signal \<^verbatim>\<open>ActionInvoked\<close>
  with the id and the action id, then everything that \<^verbatim>\<open>CloseNotification\<close> does (\<open>fx\<close> and
  its write \<open>w\<close> of the cache), then the same write of the cache once more.
\<close>

theorem invoke_is_close_after_signal:
  assumes "dbus s" and "map_of (notifications s) i \<noteq> None"
  shows "\<exists>s' c. InvokeAction i a s = Inr s' \<and> CloseNotification i s = Inr c \<and>
           notifications s' = notifications c \<and>
           map_of (notifications s') i = None \<and>
           idCount s' = idCount c \<and> dnd s' = dnd c \<and> timeout_ms s' = timeout_ms c \<and>
           dbus s' = dbus c \<and>
           cache_file s' = cache_file c \<and>
           (\<exists>fx w. effects c = effects s @ fx @ [Ensure_directory, w] \<and>
              effects s' =
                effects s @ [Signal_ActionInvoked i a] @ fx @ [Ensure_directory, w, Ensure_directory, w])"
proof -
  let ?w = "Write_cache (map (\<lambda>(k, n). cache_entry n) (AList.delete i (notifications s)))"
  let ?fx = "[Signal_NotificationClosed i 3, Emit_closed i, Emit_changed]"
  let ?c = "cache
       (s\<lparr>notifications := AList.delete i (notifications s),
          effects := effects s @ [Signal_NotificationClosed i 3, Emit_closed i, Emit_changed]\<rparr>)"
  let ?s' = "cache (cache
       (s\<lparr>notifications := AList.delete i (notifications s),
          effects := effects s @ [Signal_ActionInvoked i a, Signal_NotificationClosed i 3,
            Emit_closed i, Emit_changed]\<rparr>))"
  have inv: "InvokeAction i a s = Inr ?s'" using assms by (rule Invoke_live)
  have clo: "CloseNotification i s = Inr ?c" using assms by (rule Close_live)
  have n: "notifications ?s' = notifications ?c" by (simp add: cache_notifications)
  have gone: "map_of (notifications ?s') i = None"
    by (simp add: cache_notifications map_of_delete_same)
  have o: "idCount ?s' = idCount ?c \<and> dnd ?s' = dnd ?c \<and> timeout_ms ?s' = timeout_ms ?c \<and>
      dbus ?s' = dbus ?c"
    by (simp add: cache_idCount cache_dnd cache_timeout_ms cache_dbus)
  have f: "cache_file ?s' = cache_file ?c"
    by (simp add: cache_cache_file cache_notifications)
  have ec: "effects ?c = effects s @ ?fx @ [Ensure_directory, ?w]"
    by (simp add: cache_effects)
  have es: "effects ?s' =
      effects s @ [Signal_ActionInvoked i a] @ ?fx @ [Ensure_directory, ?w, Ensure_directory, ?w]"
    by (simp add: cache_effects cache_notifications)
  have ex: "\<exists>fx w. effects ?c = effects s @ fx @ [Ensure_directory, w] \<and>
      effects ?s' =
        effects s @ [Signal_ActionInvoked i a] @ fx @ [Ensure_directory, w, Ensure_directory, w]"
    using ec es by blast
  show ?thesis
    using inv clo n gone o f ex by blast
qed

text \<open>
  The live id 7 of \<open>example_pair\<close>, whose bus callback has run: both calls return, the
  registries are the same, and 7 is gone from them.
\<close>

theorem invoke_is_close_after_signal_witness:
  "dbus example_pair \<and> map_of (notifications example_pair) 7 \<noteq> None \<and>
   (case (InvokeAction 7 ''a1'' example_pair, CloseNotification 7 example_pair) of
      (Inr s', Inr c) \<Rightarrow>
        notifications s' = notifications c \<and> map fst (notifications s') = [0] \<and>
        map_of (notifications s') 7 = None \<and> cache_file s' = cache_file c
    | (Inr s', Inl e) \<Rightarrow> False
    | (Inl e, r) \<Rightarrow> False)"
proof -
  have h1: "dbus example_pair" by (rule example_pair_dbus)
  have h2: "map_of (notifications example_pair) 7 \<noteq> None"
    by (simp add: example_pair_notifications)
  obtain s' c where r: "InvokeAction 7 ''a1'' example_pair = Inr s'"
      "CloseNotification 7 example_pair = Inr c"
      "notifications s' = notifications c" "map_of (notifications s') 7 = None"
      "cache_file s' = cache_file c"
    using invoke_is_close_after_signal [OF h1 h2, of "''a1''"] by blast
  have "c = cache
       (example_pair\<lparr>notifications := AList.delete 7 (notifications example_pair),
          effects := effects example_pair @ [Signal_NotificationClosed 7 3, Emit_closed 7, Emit_changed]\<rparr>)"
    using r(2) Close_live [OF h1 h2] by simp
  then have "map fst (notifications c) = [0]"
    by (simp add: cache_notifications example_pair_notifications)
  then have k: "map fst (notifications s') = [0]" using r(3) by simp
  show ?thesis
    unfolding r(1) r(2) using h1 h2 r(3) r(4) r(5) k by simp
qed

text \<open>
  The claim as stated is for every live id. A service that has just been constructed from
  the cache file of \<open>example_service\<close> has the notification 7 live, and \<^verbatim>\<open>_dbus\<close> is not
  assigned yet: \<^verbatim>\<open>InvokeAction(7, "a1")\<close> raises at \<^verbatim>\<open>this._dbus.emit_signal\<close>, so no signal is
  emitted and the record stays.
\<close>

theorem invoke_before_bus_callback_counterexample:
  "map_of (notifications (constructor None (cache_file example_service))) 7 \<noteq> None \<and>
   dbus (constructor None (cache_file example_service)) = False \<and>
   InvokeAction 7 ''a1'' (constructor None (cache_file example_service)) = Inl TypeError \<and>
   CloseNotification 7 (constructor None (cache_file example_service)) = Inl TypeError"
proof -
  let ?s = "constructor None (cache_file example_service)"
  have live: "map_of (notifications ?s) 7 \<noteq> None"
    unfolding restarted_notifications by simp
  have d: "\<not> dbus ?s" by (rule restarted_dbus)
  have i: "InvokeAction 7 ''a1'' ?s = Inl TypeError" using d live by (rule Invoke_unassigned)
  have c: "CloseNotification 7 ?s = Inl TypeError" using d live by (rule Close_unassigned)
  show ?thesis
    using live d i c by blast
qed

subsection \<open>C8: calls on an id that is not live\<close>

text \<open>
  C8. For every id that is absent from the registry, \<^verbatim>\<open>DismissNotification\<close>,
  \<^verbatim>\<open>CloseNotification\<close> and \<^verbatim>\<open>InvokeAction\<close> each return the state they were given, whether
  the bus object is assigned or not: the registry, the cache file and the list of effects
  are the same, so nothing is emitted, signalled or written, and none of the three raises
  (\<open>Inr\<close>). After a \<^verbatim>\<open>CloseNotification\<close> of any id that has returned, that id is absent, and
  each of the three calls on it changes nothing and raises nothing.
\<close>

theorem unknown_id_is_noop:
  "(map_of (notifications s) i = None \<longrightarrow>
      DismissNotification i s = s \<and> CloseNotification i s = Inr s \<and> InvokeAction i a s = Inr s) \<and>
   (\<forall>s'. CloseNotification i s = Inr s' \<longrightarrow>
      map_of (notifications s') i = None \<and>
      DismissNotification i s' = s' \<and>
      CloseNotification i s' = Inr s' \<and>
      InvokeAction i a s' = Inr s')"
proof (rule conjI)
  show "map_of (notifications s) i = None \<longrightarrow>
      DismissNotification i s = s \<and> CloseNotification i s = Inr s \<and> InvokeAction i a s = Inr s"
    by (simp add: Close_absent Dismiss_absent Invoke_absent)
next
  show "\<forall>s'. CloseNotification i s = Inr s' \<longrightarrow>
      map_of (notifications s') i = None \<and>
      DismissNotification i s' = s' \<and>
      CloseNotification i s' = Inr s' \<and>
      InvokeAction i a s' = Inr s'"
  proof (rule allI, rule impI)
    fix s'
    assume "CloseNotification i s = Inr s'"
    then have g: "map_of (notifications s') i = None" by (rule Close_removes)
    show "map_of (notifications s') i = None \<and>
      DismissNotification i s' = s' \<and>
      CloseNotification i s' = Inr s' \<and>
      InvokeAction i a s' = Inr s'"
      using g Close_absent [OF g] Dismiss_absent [OF g] Invoke_absent [OF g, of a] by simp
  qed
qed

text \<open>
  The id 3, which is not live in \<open>example_service\<close>, where the bus object is not assigned;
  and the id 7 of \<open>example_pair\<close>, closed by a call that returns.
\<close>

theorem unknown_id_is_noop_witness:
  "map_of (notifications example_service) 3 = None \<and>
   dbus example_service = False \<and>
   DismissNotification 3 example_service = example_service \<and>
   CloseNotification 3 example_service = Inr example_service \<and>
   InvokeAction 3 ''a1'' example_service = Inr example_service \<and>
   (case CloseNotification 7 example_pair of
      Inl e \<Rightarrow> False
    | Inr s' \<Rightarrow>
        map_of (notifications s') 7 = None \<and> DismissNotification 7 s' = s' \<and>
        CloseNotification 7 s' = Inr s' \<and> InvokeAction 7 ''a1'' s' = Inr s')"
proof -
  have h: "map_of (notifications example_service) 3 = None"
    by (simp add: example_service_notifications)
  have d: "dbus example_service = False"
    by (simp add: example_service_def Notify_call_dbus constructor_def readFromFile_def
        register_def)
  have live: "map_of (notifications example_pair) 7 \<noteq> None"
    by (simp add: example_pair_notifications)
  obtain s' where c: "CloseNotification 7 example_pair = Inr s'"
    using Close_live [OF example_pair_dbus live] by simp
  from unknown_id_is_noop [of example_service 3 "''a1''"] h
  have absent: "DismissNotification 3 example_service = example_service \<and>
      CloseNotification 3 example_service = Inr example_service \<and>
      InvokeAction 3 ''a1'' example_service = Inr example_service"
    by blast
  from unknown_id_is_noop [of example_pair 7 "''a1''"] c
  have closed: "map_of (notifications s') 7 = None \<and> DismissNotification 7 s' = s' \<and>
      CloseNotification 7 s' = Inr s' \<and> InvokeAction 7 ''a1'' s' = Inr s'"
    by blast
  show ?thesis
    unfolding c using h d absent closed by simp
qed

subsection \<open>C9: dismissing keeps the record\<close>

text \<open>
  C9. For every live id, after \<^verbatim>\<open>DismissNotification\<close> the record is still in the registry
  under that id, with its popup flag false and every other field as before; every other
  entry, the order of the ids, the counter, the flag and the delay are unchanged; the cache
  file is unchanged and nothing is written: the only effects are the events
  \<^verbatim>\<open>dismissed(id)\<close> and \<^verbatim>\<open>changed\<close>.
\<close>

theorem dismiss_keeps_record:
  assumes "map_of (notifications s) i = Some n"
  shows "map_of (notifications (DismissNotification i s)) i = Some (n\<lparr>popup := False\<rparr>) \<and>
         (\<forall>j. j \<noteq> i \<longrightarrow>
            map_of (notifications (DismissNotification i s)) j = map_of (notifications s) j) \<and>
         map fst (notifications (DismissNotification i s)) = map fst (notifications s) \<and>
         cache_file (DismissNotification i s) = cache_file s \<and>
         effects (DismissNotification i s) = effects s @ [Emit_dismissed i, Emit_changed] \<and>
         idCount (DismissNotification i s) = idCount s \<and>
         dnd (DismissNotification i s) = dnd s \<and>
         timeout_ms (DismissNotification i s) = timeout_ms s"
proof -
  have d: "DismissNotification i s =
      s\<lparr>notifications := AList.update i (n\<lparr>popup := False\<rparr>) (notifications s),
        effects := effects s @ [Emit_dismissed i, Emit_changed]\<rparr>"
    using assms by (simp add: DismissNotification_def)
  have live: "map_of (notifications s) i \<noteq> None" using assms by simp
  have k: "map fst (AList.update i (n\<lparr>popup := False\<rparr>) (notifications s)) = map fst (notifications s)"
    using live by (rule keys_update_present)
  show ?thesis
    unfolding d using k by (simp add: update_conv')
qed

text \<open>The live id 7 of \<open>example_service\<close>, whose popup flag is true before.\<close>

theorem dismiss_keeps_record_witness:
  "map_option popup (map_of (notifications example_service) 7) = Some True \<and>
   map_option popup (map_of (notifications (DismissNotification 7 example_service)) 7) = Some False \<and>
   map_option actions (map_of (notifications (DismissNotification 7 example_service)) 7)
     = Some [\<lparr>id_a = ''a1'', label = Some ''Open''\<rparr>] \<and>
   cache_file (DismissNotification 7 example_service) = cache_file example_service"
proof -
  have h: "map_of (notifications example_service) 7 =
     Some \<lparr>id_n = 7, appName = ''App'', appEntry = None, appIcon = ''icon'', summary = ''Hi'',
           body = ''text'', actions = [\<lparr>id_a = ''a1'', label = Some ''Open''\<rparr>],
           urgency = Some ''normal'', time = 5, image_n = None, popup = True\<rparr>"
    by (simp add: example_service_notifications)
  show ?thesis
    using h dismiss_keeps_record [OF h] by simp
qed

subsection \<open>C10: an id chosen by the caller\<close>

lemma caller_id_run:
  "fst (Notify_run [example_call\<lparr>call_replacesId := 1\<rparr>, example_call,
          example_call\<lparr>call_appName := ''Other''\<rparr>] (constructor None None)) = [1, 0, 1]"
  by (simp add: split_beta Notify_call_fst Notify_call_idCount fresh_idCount example_call_def)

lemma caller_id_before:
  "map_option appName
     (map_of (notifications (snd (Notify_run [example_call\<lparr>call_replacesId := 1\<rparr>, example_call]
        (constructor None None)))) 1) = Some ''App''"
  by (simp add: split_beta Notify_call_notifications Notify_call_fst Notify_call_idCount
      Notify_call_dnd fresh_idCount fresh_notifications fresh_dnd example_call_def
      update_conv' Notify_object_def)

lemma caller_id_after:
  "map_option appName
     (map_of (notifications (snd (Notify_run [example_call\<lparr>call_replacesId := 1\<rparr>, example_call,
          example_call\<lparr>call_appName := ''Other''\<rparr>] (constructor None None)))) 1) = Some ''Other''"
  by (simp add: split_beta Notify_call_notifications Notify_call_fst Notify_call_idCount
      Notify_call_dnd fresh_idCount fresh_notifications fresh_dnd example_call_def
      update_conv' Notify_object_def)

text \<open>
  C10. For every state and every call of \<^verbatim>\<open>Notify\<close> whose \<^verbatim>\<open>replacesId\<close> is not 0 and is not the
  id of a live notification: the call returns \<^verbatim>\<open>replacesId\<close>, a new record is stored under
  that id, after all the others, and the counter is not advanced. And there are three calls,
  the first with a \<^verbatim>\<open>replacesId\<close> that is not 0 and the others with \<^verbatim>\<open>replacesId = 0\<close>, made
  one after the other on a service that has just started, such that the third returns the
  id the first one chose, and the record that the first call stored, still live after the
  second, is replaced by the record of the third.
\<close>

theorem caller_chosen_id_collides:
  "(rid \<noteq> 0 \<and> map_of (notifications s) rid = None \<longrightarrow>
      (let r = Notify now fe app rid icon summ bod acts hints s
       in fst r = rid \<and>
          map_of (notifications (snd r)) rid =
            Some (Notify_object now fe app rid icon summ bod acts hints (dnd s)) \<and>
          map fst (notifications (snd r)) = map fst (notifications s) @ [rid] \<and>
          idCount (snd r) = idCount s)) \<and>
   (\<exists>c1 c2 c3.
      call_replacesId c1 \<noteq> 0 \<and> call_replacesId c2 = 0 \<and> call_replacesId c3 = 0 \<and>
      call_appName c1 \<noteq> call_appName c3 \<and>
      fst (Notify_run [c1, c2, c3] (constructor None None)) = [call_replacesId c1, 0, call_replacesId c1] \<and>
      map_option appName
        (map_of (notifications (snd (Notify_run [c1, c2] (constructor None None)))) (call_replacesId c1))
        = Some (call_appName c1) \<and>
      map_option appName
        (map_of (notifications (snd (Notify_run [c1, c2, c3] (constructor None None)))) (call_replacesId c1))
        = Some (call_appName c3))"
proof (intro conjI impI)
  assume a: "rid \<noteq> 0 \<and> map_of (notifications s) rid = None"
  let ?r = "Notify now fe app rid icon summ bod acts hints s"
  have 1: "fst ?r = rid" using a by (simp add: Notify_fst)
  have n: "notifications (snd ?r) =
      AList.update rid (Notify_object now fe app rid icon summ bod acts hints (dnd s)) (notifications s)"
    using a by (simp add: Notify_notifications)
  have 2: "map_of (notifications (snd ?r)) rid =
      Some (Notify_object now fe app rid icon summ bod acts hints (dnd s))"
    by (simp add: n update_conv')
  have 3: "map fst (notifications (snd ?r)) = map fst (notifications s) @ [rid]"
    unfolding n using a by (simp add: keys_update_absent)
  have 4: "idCount (snd ?r) = idCount s" using a by (simp add: Notify_idCount)
  show "let r = ?r
        in fst r = rid \<and>
           map_of (notifications (snd r)) rid =
             Some (Notify_object now fe app rid icon summ bod acts hints (dnd s)) \<and>
           map fst (notifications (snd r)) = map fst (notifications s) @ [rid] \<and>
           idCount (snd r) = idCount s"
    unfolding Let_def using 1 2 3 4 by simp
next
  let ?c1 = "example_call\<lparr>call_replacesId := 1\<rparr>"
  let ?c2 = "example_call"
  let ?c3 = "example_call\<lparr>call_appName := ''Other''\<rparr>"
  have "call_replacesId ?c1 \<noteq> 0 \<and> call_replacesId ?c2 = 0 \<and> call_replacesId ?c3 = 0 \<and>
      call_appName ?c1 \<noteq> call_appName ?c3 \<and>
      fst (Notify_run [?c1, ?c2, ?c3] (constructor None None)) = [call_replacesId ?c1, 0, call_replacesId ?c1] \<and>
      map_option appName
        (map_of (notifications (snd (Notify_run [?c1, ?c2] (constructor None None)))) (call_replacesId ?c1))
        = Some (call_appName ?c1) \<and>
      map_option appName
        (map_of (notifications (snd (Notify_run [?c1, ?c2, ?c3] (constructor None None)))) (call_replacesId ?c1))
        = Some (call_appName ?c3)"
    using caller_id_run caller_id_before caller_id_after by (simp add: example_call_def)
  then show "\<exists>c1 c2 c3.
      call_replacesId c1 \<noteq> 0 \<and> call_replacesId c2 = 0 \<and> call_replacesId c3 = 0 \<and>
      call_appName c1 \<noteq> call_appName c3 \<and>
      fst (Notify_run [c1, c2, c3] (constructor None None)) = [call_replacesId c1, 0, call_replacesId c1] \<and>
      map_option appName
        (map_of (notifications (snd (Notify_run [c1, c2] (constructor None None)))) (call_replacesId c1))
        = Some (call_appName c1) \<and>
      map_option appName
        (map_of (notifications (snd (Notify_run [c1, c2, c3] (constructor None None)))) (call_replacesId c1))
        = Some (call_appName c3)"
    by blast
qed

text \<open>The id 1, chosen by the caller on a service that has just started.\<close>

theorem caller_chosen_id_collides_witness:
  "(1::nat) \<noteq> 0 \<and> map_of (notifications (constructor None None)) 1 = None \<and>
   fst (Notify 5 (\<lambda>p. False) ''App'' 1 ''icon'' ''Hi'' ''text'' [] no_hints (constructor None None)) = 1 \<and>
   map fst (notifications
      (snd (Notify 5 (\<lambda>p. False) ''App'' 1 ''icon'' ''Hi'' ''text'' [] no_hints (constructor None None))))
     = [1] \<and>
   idCount (snd (Notify 5 (\<lambda>p. False) ''App'' 1 ''icon'' ''Hi'' ''text'' [] no_hints (constructor None None)))
     = 0"
proof -
  have h: "(1::nat) \<noteq> 0 \<and> map_of (notifications (constructor None None)) 1 = None"
    by (simp add: fresh_notifications)
  show ?thesis
    using h caller_chosen_id_collides [of 1 "constructor None None" 5 "\<lambda>p. False" "''App''"
        "''icon''" "''Hi''" "''text''" "[]" no_hints]
    by (simp add: Let_def fresh_notifications fresh_idCount)
qed

end
